theory Spec2Isabelle
  imports Main "HOL-Library.Sublist"
begin

section \<open>Python values: exceptions, outcomes, text streams\<close>

text \<open>
  The module \<^verbatim>\<open>archivebox/parsers/__init__.py\<close> is embedded function by function.
  An exception that is an instance of Python's \<^verbatim>\<open>Exception\<close> is a value of type
  \<open>exception\<close>: \<open>Exception msg\<close> stands for any such instance whose class plays no role
  here, with its message. \<^verbatim>\<open>SystemExit\<close> is not an instance of \<^verbatim>\<open>Exception\<close> and is kept
  apart, as its own way for a call to end. The argument types that the decorator
  \<^verbatim>\<open>enforce_types\<close> checks at run time are the types of the functions below.
\<close>

datatype exception =
    Exception string
  | FileNotFoundError string
  | AssertionError string

datatype 'a result =
    Return 'a
  | Raise exception
  | SystemExit int

text \<open>
  A text stream (\<^verbatim>\<open>IO[str]\<close>): the \<^verbatim>\<open>name\<close> attribute when it is set, the whole text
  and the current position.
\<close>

record text_io =
  io_name :: "string option"
  io_text :: string
  io_pos :: nat

text \<open>\<^verbatim>\<open>StringIO()\<close>: an empty buffer, positioned at 0, with no \<^verbatim>\<open>name\<close>.\<close>

definition StringIO :: text_io where
  "StringIO = \<lparr>io_name = None, io_text = [], io_pos = 0\<rparr>"

text \<open>
  \<^verbatim>\<open>file.write(s)\<close> overwrites from the current position (padding with NUL when the
  position is past the end) and advances the position by \<open>length s\<close>;
  \<^verbatim>\<open>file.writelines(lines)\<close> writes each string in turn and adds no line separator.
\<close>

definition io_write :: "text_io \<Rightarrow> string \<Rightarrow> text_io" where
  "io_write file s =
     file\<lparr>io_text := take (io_pos file) (io_text file)
                      @ replicate (io_pos file - length (io_text file)) (CHR 0x00)
                      @ s
                      @ drop (io_pos file + length s) (io_text file),
          io_pos := io_pos file + length s\<rparr>"

definition io_writelines :: "text_io \<Rightarrow> string list \<Rightarrow> text_io" where
  "io_writelines file lines = foldl io_write file lines"

text \<open>
  Modelled from the spec: the eleven parser modules (\<^verbatim>\<open>pocket_api\<close>, ..., \<^verbatim>\<open>generic_txt\<close>)
  and the \<^verbatim>\<open>Link\<close> class are not part of the file. By the strategy interface a parser
  keeps no state between calls and does nothing to the outside beyond reading the
  stream it is given; it yields a sequence of records or fails with an error. The
  stream is one mutable object that the dispatcher hands to every parser in turn, so
  \<^verbatim>\<open>list(parser_func(to_parse, root_url=root_url))\<close> is a function from the stream as it
  is handed over and the root URL to what the call gives, the exception raised (an
  instance of \<^verbatim>\<open>Exception\<close>) or the list of links, together with the stream as the
  call leaves it. The type of links is left open.
\<close>

type_synonym 'link parser_func =
  "text_io \<Rightarrow> string option \<Rightarrow> (exception + 'link list) \<times> text_io"

text \<open>
  \<^verbatim>\<open>TimedProgress(seconds)\<close> of \<^verbatim>\<open>logging_util\<close> draws a progress bar; the object is
  passed along as a value, and its \<^verbatim>\<open>end()\<close> calls, which change nothing that the
  functions here compute, are display effects outside the model.
\<close>

datatype timer = TimedProgress int

section \<open>The registry\<close>

text \<open>The eleven imported parser functions, in the order of the import statements.\<close>

record 'link parser_modules =
  parse_pocket_html_export :: "'link parser_func"
  parse_pocket_api_export :: "'link parser_func"
  parse_pinboard_rss_export :: "'link parser_func"
  parse_wallabag_atom_export :: "'link parser_func"
  parse_shaarli_rss_export :: "'link parser_func"
  parse_medium_rss_export :: "'link parser_func"
  parse_netscape_html_export :: "'link parser_func"
  parse_generic_rss_export :: "'link parser_func"
  parse_generic_json_export :: "'link parser_func"
  parse_generic_html_export :: "'link parser_func"
  parse_generic_txt_export :: "'link parser_func"

definition PARSERS :: "'link parser_modules \<Rightarrow> (string \<times> 'link parser_func) list" where
  "PARSERS m =
     [ \<comment> \<open>Specialized parsers\<close>
       (''Pocket API'', parse_pocket_api_export m),
       (''Wallabag ATOM'', parse_wallabag_atom_export m),
       (''Pocket HTML'', parse_pocket_html_export m),
       (''Pinboard RSS'', parse_pinboard_rss_export m),
       (''Shaarli RSS'', parse_shaarli_rss_export m),
       (''Medium RSS'', parse_medium_rss_export m),
       \<comment> \<open>General parsers\<close>
       (''Netscape HTML'', parse_netscape_html_export m),
       (''Generic RSS'', parse_generic_rss_export m),
       (''Generic JSON'', parse_generic_json_export m),
       (''Generic HTML'', parse_generic_html_export m),
       \<comment> \<open>Fallback parser\<close>
       (''Plain Text'', parse_generic_txt_export m) ]"

section \<open>The dispatcher\<close>

text \<open>
  The body of the \<^verbatim>\<open>try\<close> block for one registry entry, from the current
  \<open>(most_links, best_parser_name)\<close>: either the exception that leaves the block, or the
  pair after it; with it, the stream as the parser left it.
\<close>

definition try_parser ::
  "string \<Rightarrow> 'link parser_func \<Rightarrow> text_io \<Rightarrow> string option \<Rightarrow>
   'link list \<times> string option \<Rightarrow> (exception + ('link list \<times> string option)) \<times> text_io" where
  "try_parser parser_name parser_func to_parse root_url best =
     (case parser_func to_parse root_url of
        (Inl err, to_parse') \<Rightarrow> (Inl err, to_parse')
      | (Inr parsed_links, to_parse') \<Rightarrow>
          (if parsed_links = [] then Inl (Exception ''no links found'')
           else if length parsed_links > length (fst best)
                then Inr (parsed_links, Some parser_name)
                else Inr best,
           to_parse'))"

text \<open>
  The \<^verbatim>\<open>for\<close> loop over the registry; \<^verbatim>\<open>except Exception: pass\<close> goes on with the
  pair unchanged. The loop never repositions the stream: each parser gets it as the
  parser before left it.
\<close>

fun parser_loop ::
  "(string \<times> 'link parser_func) list \<Rightarrow> text_io \<Rightarrow> string option \<Rightarrow>
   'link list \<times> string option \<Rightarrow> ('link list \<times> string option) \<times> text_io" where
  "parser_loop [] to_parse root_url best = (best, to_parse)"
| "parser_loop ((parser_name, parser_func) # rest) to_parse root_url best =
     (case try_parser parser_name parser_func to_parse root_url best of
        (Inl err, to_parse') \<Rightarrow> parser_loop rest to_parse' root_url best
      | (Inr best', to_parse') \<Rightarrow> parser_loop rest to_parse' root_url best')"

text \<open>
  \<^verbatim>\<open>run_parser_functions\<close>; the module-level registry it iterates over is its first
  argument here. It gives the returned pair and the stream as the loop leaves it.
\<close>

definition run_parser_functions ::
  "(string \<times> 'link parser_func) list \<Rightarrow> text_io \<Rightarrow> timer \<Rightarrow> string option \<Rightarrow>
   ('link list \<times> string option) result \<times> text_io" where
  "run_parser_functions registry to_parse timer root_url =
     (case parser_loop registry to_parse root_url ([], None) of
        (best, to_parse') \<Rightarrow> (Return best, to_parse'))"

text \<open>
  What each registry entry gave in one run of the loop, in registry order: the entry's
  name with the exception or the list of links of its parser, called on the stream as
  the parser before it left it.
\<close>

fun outcomes ::
  "(string \<times> 'link parser_func) list \<Rightarrow> text_io \<Rightarrow> string option \<Rightarrow>
   (string \<times> (exception + 'link list)) list" where
  "outcomes [] to_parse root_url = []"
| "outcomes ((parser_name, parser_func) # rest) to_parse root_url =
     (parser_name, fst (parser_func to_parse root_url))
       # outcomes rest (snd (parser_func to_parse root_url)) root_url"

text \<open>
  Three parsers to run the loop on. The first reads the stream to its end
  (\<^verbatim>\<open>file.read()\<close>) and raises, as a JSON parser does on a text that is not JSON. The
  second reads from the position it is handed and gives what it read as one link,
  when that is not empty. The third goes to the start (\<^verbatim>\<open>file.seek(0)\<close>) before it
  reads.
\<close>

definition read_then_raise :: "string parser_func" where
  "read_then_raise to_parse root_url =
     (Inl (Exception ''not JSON''),
      to_parse\<lparr>io_pos := max (io_pos to_parse) (length (io_text to_parse))\<rparr>)"


definition rewind_read_as_link :: "string parser_func" where
  "rewind_read_as_link to_parse root_url =
     (Inr (if io_text to_parse = [] then [] else [io_text to_parse]),
      to_parse\<lparr>io_pos := length (io_text to_parse)\<rparr>)"

section \<open>The bulk entry points\<close>

text \<open>The lines after the dispatcher has returned, shared by both entry points.\<close>

definition report ::
  "('link list \<times> string option) result \<Rightarrow> ('link list \<times> string) result" where
  "report r =
     (case r of
        Return (links, parser) \<Rightarrow>
          (case parser of
             None \<Rightarrow> Return ([], ''Failed to parse'')
           | Some parser_name \<Rightarrow> Return (links, parser_name))
      | Raise err \<Rightarrow> Raise err
      | SystemExit code \<Rightarrow> SystemExit code)"

text \<open>The stream that \<^verbatim>\<open>parse_links_memory\<close> builds from its list of URLs.\<close>

definition memory_file :: "string list \<Rightarrow> text_io" where
  "memory_file urls = (io_writelines StringIO urls)\<lparr>io_name := Some ''io_string''\<rparr>"

definition parse_links_memory ::
  "(string \<times> 'link parser_func) list \<Rightarrow> int \<Rightarrow> string list \<Rightarrow> string option \<Rightarrow>
   ('link list \<times> string) result" where
  "parse_links_memory registry TIMEOUT urls root_url =
     (let timer = TimedProgress (TIMEOUT * 4);
          file = memory_file urls
      in report (fst (run_parser_functions registry file timer root_url)))"

text \<open>
  \<^verbatim>\<open>parse_links\<close>: the file system maps a path to the decoded text of the file there;
  \<^verbatim>\<open>open\<close> raises when there is none.
\<close>

definition parse_links ::
  "(string \<rightharpoonup> string) \<Rightarrow> (string \<times> 'link parser_func) list \<Rightarrow> int \<Rightarrow> string \<Rightarrow>
   string option \<Rightarrow> ('link list \<times> string) result" where
  "parse_links files registry TIMEOUT source_file root_url =
     (let timer = TimedProgress (TIMEOUT * 4)
      in case files source_file of
           None \<Rightarrow> Raise (FileNotFoundError source_file)
         | Some text \<Rightarrow>
             (let file = \<lparr>io_name = Some source_file, io_text = text, io_pos = 0\<rparr>
              in report (fst (run_parser_functions registry file timer root_url))))"

section \<open>Source capture\<close>

text \<open>
  What a call does to the outside, in order: a line printed, a download requested
  with its timeout, a local file opened for reading, \<^verbatim>\<open>atomic_write\<close>, and
  \<^verbatim>\<open>log_source_saved\<close>.
\<close>

datatype event =
    Print string
  | Download string int
  | Open string
  | AtomicWrite string string
  | LogSourceSaved string

text \<open>
  Modelled from the spec: the names imported from \<^verbatim>\<open>config\<close> (\<^verbatim>\<open>OUTPUT_DIR\<close>,
  \<^verbatim>\<open>SOURCES_DIR_NAME\<close>, \<^verbatim>\<open>ANSI\<close>) and from \<^verbatim>\<open>util\<close> (\<^verbatim>\<open>basename\<close>, \<^verbatim>\<open>download_url\<close>,
  \<^verbatim>\<open>htmldecode\<close>) are not part of the file; they are fields of an environment, next to
  the library operations on paths (\<open>/\<close> and \<^verbatim>\<open>str\<close>) and \<^verbatim>\<open>str.format\<close> with keyword
  arguments. The fetch and the decoding of HTML entities may raise, and so may
  \<^verbatim>\<open>format\<close>. \<^verbatim>\<open>atomic_write\<close> of \<^verbatim>\<open>system\<close> is atomic by the spec: the file holds the
  whole new text afterwards.
\<close>

record 'path environment =
  OUTPUT_DIR :: 'path
  SOURCES_DIR_NAME :: string
  ANSI :: "string \<Rightarrow> string"
  joinpath :: "'path \<Rightarrow> string \<Rightarrow> 'path"
  path_str :: "'path \<Rightarrow> string"
  basename :: "string \<Rightarrow> string"
  str_format :: "string \<Rightarrow> (string \<times> string) list \<Rightarrow> exception + string"
  download_url :: "string \<Rightarrow> int \<Rightarrow> exception + string"
  htmldecode :: "string \<Rightarrow> exception + string"

text \<open>
  The end of a call: how it ended, what it did, and the file system it leaves.
\<close>

record 'a call =
  outcome :: "'a result"
  effects :: "event list"
  files_after :: "string \<rightharpoonup> string"

text \<open>\<^verbatim>\<open>str(e)\<close> of an exception made from one message.\<close>

definition exception_str :: "exception \<Rightarrow> string" where
  "exception_str err =
     (case err of Exception msg \<Rightarrow> msg | FileNotFoundError msg \<Rightarrow> msg | AssertionError msg \<Rightarrow> msg)"

text \<open>
  \<^verbatim>\<open>str(datetime.now().timestamp()).split('.', 1)[0]\<close>, from the clock's reading
  \<open>now\<close> already printed as a string.
\<close>

definition timestamp :: "string \<Rightarrow> string" where
  "timestamp now = takeWhile (\<lambda>c. c \<noteq> CHR ''.'') now"

text \<open>
  The last three lines of both capture functions: \<^verbatim>\<open>atomic_write\<close>,
  \<^verbatim>\<open>log_source_saved\<close>, \<^verbatim>\<open>return source_path\<close>, after the effects already \<open>done\<close>.
\<close>

definition save_source ::
  "(string \<rightharpoonup> string) \<Rightarrow> event list \<Rightarrow> string \<Rightarrow> string \<Rightarrow> string call" where
  "save_source files done source_path raw_source_text =
     \<lparr>outcome = Return source_path,
      effects = done @ [AtomicWrite source_path raw_source_text, LogSourceSaved source_path],
      files_after = files(source_path \<mapsto> raw_source_text)\<rparr>"

definition save_text_as_source ::
  "'path environment \<Rightarrow> string \<Rightarrow> (string \<rightharpoonup> string) \<Rightarrow>
   string \<Rightarrow> string \<Rightarrow> 'path \<Rightarrow> string call" where
  "save_text_as_source env now files raw_text filename out_dir =
     (let ts = timestamp now
      in case str_format env filename [(''ts'', ts)] of
           Inl err \<Rightarrow> \<lparr>outcome = Raise err, effects = [], files_after = files\<rparr>
         | Inr formatted \<Rightarrow>
             (let source_path =
                    path_str env (joinpath env (joinpath env out_dir (SOURCES_DIR_NAME env)) formatted)
              in save_source files [] source_path raw_text))"

text \<open>
  \<^verbatim>\<open>save_file_as_source\<close>. The \<^verbatim>\<open>try\<close> block holds \<^verbatim>\<open>download_url\<close> and \<^verbatim>\<open>htmldecode\<close>;
  its handler prints twice and raises \<^verbatim>\<open>SystemExit(1)\<close>. The parameter \<open>out_dir\<close> is
  not used by the body, as in the source.
\<close>

definition save_file_as_source ::
  "'path environment \<Rightarrow> string \<Rightarrow> (string \<rightharpoonup> string) \<Rightarrow>
   string \<Rightarrow> int \<Rightarrow> string \<Rightarrow> 'path \<Rightarrow> string call" where
  "save_file_as_source env now files path timeout filename out_dir =
     (let ts = timestamp now
      in case str_format env filename [(''basename'', basename env path), (''ts'', ts)] of
           Inl err \<Rightarrow> \<lparr>outcome = Raise err, effects = [], files_after = files\<rparr>
         | Inr formatted \<Rightarrow>
             (let source_path =
                    path_str env
                      (joinpath env (joinpath env (OUTPUT_DIR env) (SOURCES_DIR_NAME env)) formatted)
              in if list_ex (\<lambda>s. prefix s path) [''http://'', ''https://'', ''ftp://'']
                 then
                   (let started = [Print (''    > Downloading '' @ path @ '' contents''),
                                   Download path timeout]
                    in case (case download_url env path timeout of
                               Inl e \<Rightarrow> Inl e
                             | Inr raw_source_text \<Rightarrow> htmldecode env raw_source_text) of
                         Inr raw_source_text \<Rightarrow> save_source files started source_path raw_source_text
                       | Inl e \<Rightarrow>
                           \<lparr>outcome = SystemExit 1,
                            effects = started @
                              [Print (ANSI env ''red'' @ ''[!] Failed to download '' @ path
                                      @ ANSI env ''reset'' @ [CHR 0x0A]),
                               Print (''    '' @ '' '' @ exception_str e)],
                            files_after = files\<rparr>)
                 else
                   (case files path of
                      None \<Rightarrow> \<lparr>outcome = Raise (FileNotFoundError path),
                                effects = [Open path], files_after = files\<rparr>
                    | Some raw_source_text \<Rightarrow>
                        save_source files [Open path] source_path raw_source_text)))"

text \<open>
  An environment to run the functions in: paths are strings joined with a slash,
  \<^verbatim>\<open>basename\<close> is what follows the last slash, \<^verbatim>\<open>format\<close> replaces each \<open>{name}\<close> field by
  the keyword argument of that name, the web is a map from URLs to page texts, and
  the pages hold no HTML entities.
\<close>

fun format_fields :: "(string \<times> string) list \<Rightarrow> string option \<Rightarrow> string \<Rightarrow> exception + string" where
  "format_fields kwargs None [] = Inr []"
| "format_fields kwargs (Some field) [] = Inl (Exception ''expected } before end of string'')"
| "format_fields kwargs None (c # cs) =
     (if c = CHR ''{'' then format_fields kwargs (Some []) cs
      else if c = CHR ''}'' then Inl (Exception ''Single } encountered in format string'')
      else (case format_fields kwargs None cs of
              Inl err \<Rightarrow> Inl err
            | Inr rest \<Rightarrow> Inr (c # rest)))"
| "format_fields kwargs (Some field) (c # cs) =
     (if c = CHR ''}''
      then (case map_of kwargs field of
              None \<Rightarrow> Inl (Exception field)
            | Some v \<Rightarrow>
                (case format_fields kwargs None cs of
                   Inl err \<Rightarrow> Inl err
                 | Inr rest \<Rightarrow> Inr (v @ rest)))
      else format_fields kwargs (Some (field @ [c])) cs)"

definition test_environment :: "(string \<rightharpoonup> string) \<Rightarrow> string environment" where
  "test_environment web =
     \<lparr>OUTPUT_DIR = ''/data'',
      SOURCES_DIR_NAME = ''sources'',
      ANSI = (\<lambda>colour. []),
      joinpath = (\<lambda>dir part. dir @ ''/'' @ part),
      path_str = (\<lambda>p. p),
      basename = (\<lambda>url. rev (takeWhile (\<lambda>c. c \<noteq> CHR ''/'') (rev url))),
      str_format = (\<lambda>template kwargs. format_fields kwargs None template),
      download_url = (\<lambda>url timeout.
         case web url of None \<Rightarrow> Inl (Exception ''URLError'') | Some page \<Rightarrow> Inr page),
      htmldecode = (\<lambda>page. Inr page)\<rparr>"

section \<open>The spec's in-memory adapter\<close>

text \<open>
  The spec's words for the in-memory adapter, for comparison: the URL strings joined
  into one newline-delimited text, each URL separated from the next by a newline.
\<close>

fun spec_newline_delimited :: "string list \<Rightarrow> string" where
  "spec_newline_delimited [] = []"
| "spec_newline_delimited [u] = u"
| "spec_newline_delimited (u # v # rest) = u @ [CHR 0x0A] @ spec_newline_delimited (v # rest)"

section \<open>Properties of the dispatcher\<close>

lemma try_parser_stream: "snd (try_parser n f s r best) = snd (f s r)"
  by (simp add: try_parser_def split: prod.splits sum.splits)

lemma try_parser_cases:
  "fst (try_parser n f s r best) = Inr best' \<Longrightarrow>
     (best' = best \<and> (\<exists>ls. fst (f s r) = Inr ls \<and> ls \<noteq> [] \<and> length ls \<le> length (fst best)))
   \<or> (\<exists>ls. best' = (ls, Some n) \<and> fst (f s r) = Inr ls \<and> length (fst best) < length ls)"
  by (auto simp: try_parser_def split: prod.splits sum.splits if_splits)

lemma try_parser_fails:
  "fst (try_parser n f s r best) = Inl e \<Longrightarrow> (\<forall>ls. fst (f s r) = Inr ls \<longrightarrow> ls = [])"
  by (auto simp: try_parser_def split: prod.splits sum.splits if_splits)

lemma parser_loop_Cons:
  "parser_loop ((n, f) # rest) s r best =
     parser_loop rest (snd (f s r)) r
       (case fst (try_parser n f s r best) of Inl err \<Rightarrow> best | Inr best' \<Rightarrow> best')"
  using try_parser_stream [of n f s r best]
  by (cases "try_parser n f s r best") (auto split: sum.splits)


lemma try_parser_empty_iff:
  assumes "(fst best = []) = (snd best = None)"
    and "fst (try_parser n f s r best) = Inr best'"
  shows "(fst best' = []) = (snd best' = None)"
  using assms by (auto simp: try_parser_def split: prod.splits sum.splits if_splits)

lemma parser_loop_empty_iff:
  "(fst best = []) = (snd best = None) \<Longrightarrow>
   (fst (fst (parser_loop ps s r best)) = []) = (snd (fst (parser_loop ps s r best)) = None)"
proof (induction ps arbitrary: s best)
  case Nil
  then show ?case by simp
next
  case (Cons p ps)
  obtain n f where p: "p = (n, f)" by (cases p)
  show ?case
  proof (cases "fst (try_parser n f s r best)")
    case (Inl err)
    with Cons p show ?thesis by (simp add: parser_loop_Cons del: parser_loop.simps)
  next
    case (Inr best')
    have "(fst best' = []) = (snd best' = None)"
      using Cons.prems Inr by (rule try_parser_empty_iff)
    with Cons.IH Inr p show ?thesis by (simp add: parser_loop_Cons del: parser_loop.simps)
  qed
qed

text \<open>
  C2. Whatever the registry (its parsers may raise or return nothing) and whatever
  the input, \<^verbatim>\<open>run_parser_functions\<close> returns a pair: it does not raise and does not
  exit. In the pair, the list of links is empty exactly when the parser name is
  \<^verbatim>\<open>None\<close>.
\<close>

theorem run_parser_functions_returns:
  "\<exists>links best to_parse'.
     run_parser_functions registry to_parse timer root_url = (Return (links, best), to_parse')
     \<and> ((links = []) = (best = None))"
proof -
  obtain links best to_parse' where
    lb: "parser_loop registry to_parse root_url ([], None) = ((links, best), to_parse')"
    by (metis surj_pair)
  have "(fst (fst (parser_loop registry to_parse root_url ([], None))) = [])
        = (snd (fst (parser_loop registry to_parse root_url ([], None))) = None)"
    by (rule parser_loop_empty_iff) simp
  with lb show ?thesis by (simp add: run_parser_functions_def)
qed

subsection \<open>The winner is the first parser with the largest count\<close>

lemma outcomes_names: "map fst (outcomes ps s r) = map fst ps"
  by (induction ps arbitrary: s) auto

lemma parser_loop_first_largest:
  "fst (parser_loop ps s r (most, best)) = (links, b) \<Longrightarrow>
     ((links, b) = (most, best)
        \<and> (\<forall>(n', out) \<in> set (outcomes ps s r). \<forall>ls. out = Inr ls \<longrightarrow> length ls \<le> length most))
   \<or> (\<exists>before n after.
          outcomes ps s r = before @ (n, Inr links) # after \<and> b = Some n
          \<and> length most < length links
          \<and> (\<forall>(n', out) \<in> set before. \<forall>ls. out = Inr ls \<longrightarrow> length ls < length links)
          \<and> (\<forall>(n', out) \<in> set after. \<forall>ls. out = Inr ls \<longrightarrow> length ls \<le> length links))"
proof (induction ps arbitrary: s most best)
  case Nil
  then show ?case by simp
next
  case (Cons p ps)
  obtain n0 f0 where p: "p = (n0, f0)" by (cases p)
  let ?s = "snd (f0 s r)"
  have outs: "outcomes (p # ps) s r = (n0, fst (f0 s r)) # outcomes ps ?s r"
    by (simp add: p)
  show ?case
  proof (cases "fst (try_parser n0 f0 s r (most, best))")
    case (Inl e)
    then have small: "\<forall>ls. fst (f0 s r) = Inr ls \<longrightarrow> ls = []"
      by (rule try_parser_fails)
    from Cons.prems p Inl have "fst (parser_loop ps ?s r (most, best)) = (links, b)"
      by (simp add: parser_loop_Cons del: parser_loop.simps)
    from Cons.IH [OF this] show ?thesis
    proof
      assume same: "(links, b) = (most, best)
        \<and> (\<forall>(n', out) \<in> set (outcomes ps ?s r). \<forall>ls. out = Inr ls \<longrightarrow> length ls \<le> length most)"
      have "\<forall>(n', out) \<in> set (outcomes (p # ps) s r).
              \<forall>ls. out = Inr ls \<longrightarrow> length ls \<le> length most"
        unfolding outs using same small by auto
      with same show ?thesis by blast
    next
      assume "\<exists>before n after.
          outcomes ps ?s r = before @ (n, Inr links) # after \<and> b = Some n
          \<and> length most < length links
          \<and> (\<forall>(n', out) \<in> set before. \<forall>ls. out = Inr ls \<longrightarrow> length ls < length links)
          \<and> (\<forall>(n', out) \<in> set after. \<forall>ls. out = Inr ls \<longrightarrow> length ls \<le> length links)"
      then obtain before n after where w:
        "outcomes ps ?s r = before @ (n, Inr links) # after" "b = Some n"
        "length most < length links"
        "\<forall>(n', out) \<in> set before. \<forall>ls. out = Inr ls \<longrightarrow> length ls < length links"
        "\<forall>(n', out) \<in> set after. \<forall>ls. out = Inr ls \<longrightarrow> length ls \<le> length links"
        by blast
      have "outcomes (p # ps) s r = ((n0, fst (f0 s r)) # before) @ (n, Inr links) # after"
        using w(1) outs by simp
      moreover have "\<forall>(n', out) \<in> set ((n0, fst (f0 s r)) # before).
                       \<forall>ls. out = Inr ls \<longrightarrow> length ls < length links"
        using w(3,4) small by auto
      ultimately show ?thesis using w(2,3,5) by blast
    qed
  next
    case (Inr best')
    from Cons.prems p Inr have run: "fst (parser_loop ps ?s r best') = (links, b)"
      by (simp add: parser_loop_Cons del: parser_loop.simps)
    from try_parser_cases [OF Inr] show ?thesis
    proof
      assume keep: "best' = (most, best)
        \<and> (\<exists>ls. fst (f0 s r) = Inr ls \<and> ls \<noteq> [] \<and> length ls \<le> length (fst (most, best)))"
      then have small: "\<forall>ls. fst (f0 s r) = Inr ls \<longrightarrow> length ls \<le> length most" by auto
      from run keep have "fst (parser_loop ps ?s r (most, best)) = (links, b)" by simp
      from Cons.IH [OF this] show ?thesis
      proof
        assume same: "(links, b) = (most, best)
          \<and> (\<forall>(n', out) \<in> set (outcomes ps ?s r). \<forall>ls. out = Inr ls \<longrightarrow> length ls \<le> length most)"
        have "\<forall>(n', out) \<in> set (outcomes (p # ps) s r).
                \<forall>ls. out = Inr ls \<longrightarrow> length ls \<le> length most"
          unfolding outs using same small by auto
        with same show ?thesis by blast
      next
        assume "\<exists>before n after.
            outcomes ps ?s r = before @ (n, Inr links) # after \<and> b = Some n
            \<and> length most < length links
            \<and> (\<forall>(n', out) \<in> set before. \<forall>ls. out = Inr ls \<longrightarrow> length ls < length links)
            \<and> (\<forall>(n', out) \<in> set after. \<forall>ls. out = Inr ls \<longrightarrow> length ls \<le> length links)"
        then obtain before n after where w:
          "outcomes ps ?s r = before @ (n, Inr links) # after" "b = Some n"
          "length most < length links"
          "\<forall>(n', out) \<in> set before. \<forall>ls. out = Inr ls \<longrightarrow> length ls < length links"
          "\<forall>(n', out) \<in> set after. \<forall>ls. out = Inr ls \<longrightarrow> length ls \<le> length links"
          by blast
        have "outcomes (p # ps) s r = ((n0, fst (f0 s r)) # before) @ (n, Inr links) # after"
          using w(1) outs by simp
        moreover have "\<forall>(n', out) \<in> set ((n0, fst (f0 s r)) # before).
                         \<forall>ls. out = Inr ls \<longrightarrow> length ls < length links"
          using w(3,4) small by (auto intro: le_less_trans)
        ultimately show ?thesis using w(2,3,5) by blast
      qed
    next
      assume "\<exists>ls. best' = (ls, Some n0) \<and> fst (f0 s r) = Inr ls
                \<and> length (fst (most, best)) < length ls"
      then obtain ls0 where new: "best' = (ls0, Some n0)" "fst (f0 s r) = Inr ls0"
          "length most < length ls0"
        by auto
      from run new have "fst (parser_loop ps ?s r (ls0, Some n0)) = (links, b)" by simp
      from Cons.IH [OF this] show ?thesis
      proof
        assume stay: "(links, b) = (ls0, Some n0)
          \<and> (\<forall>(n', out) \<in> set (outcomes ps ?s r). \<forall>ls. out = Inr ls \<longrightarrow> length ls \<le> length ls0)"
        have "outcomes (p # ps) s r = [] @ (n0, Inr links) # outcomes ps ?s r"
          using outs new(2) stay by simp
        moreover have "\<forall>(n', out) \<in> set []. \<forall>ls. out = Inr ls \<longrightarrow> length ls < length links"
          by simp
        ultimately show ?thesis using stay new by blast
      next
        assume "\<exists>before n after.
            outcomes ps ?s r = before @ (n, Inr links) # after \<and> b = Some n
            \<and> length ls0 < length links
            \<and> (\<forall>(n', out) \<in> set before. \<forall>ls. out = Inr ls \<longrightarrow> length ls < length links)
            \<and> (\<forall>(n', out) \<in> set after. \<forall>ls. out = Inr ls \<longrightarrow> length ls \<le> length links)"
        then obtain before n after where w:
          "outcomes ps ?s r = before @ (n, Inr links) # after" "b = Some n"
          "length ls0 < length links"
          "\<forall>(n', out) \<in> set before. \<forall>ls. out = Inr ls \<longrightarrow> length ls < length links"
          "\<forall>(n', out) \<in> set after. \<forall>ls. out = Inr ls \<longrightarrow> length ls \<le> length links"
          by blast
        have "outcomes (p # ps) s r = ((n0, fst (f0 s r)) # before) @ (n, Inr links) # after"
          using w(1) outs by simp
        moreover have "\<forall>(n', out) \<in> set ((n0, fst (f0 s r)) # before).
                         \<forall>ls. out = Inr ls \<longrightarrow> length ls < length links"
          using w(3,4) new by auto
        moreover have "length most < length links" using w(3) new(3) by simp
        ultimately show ?thesis using w(2,5) by blast
      qed
    qed
  qed
qed

lemma parser_loop_run:
  assumes "fst (parser_loop registry s r ([], None)) = (links, best)"
  shows "(links = [] \<and> best = None
          \<and> (\<forall>(n', out) \<in> set (outcomes registry s r). \<forall>ls. out = Inr ls \<longrightarrow> ls = []))
       \<or> (\<exists>before n after.
            outcomes registry s r = before @ (n, Inr links) # after \<and> best = Some n
            \<and> links \<noteq> []
            \<and> (\<forall>(n', out) \<in> set before. \<forall>ls. out = Inr ls \<longrightarrow> length ls < length links)
            \<and> (\<forall>(n', out) \<in> set after. \<forall>ls. out = Inr ls \<longrightarrow> length ls \<le> length links))"
  using parser_loop_first_largest [OF assms]
proof
  assume "(links, best) = ([], None) \<and>
    (\<forall>(n', out)\<in>set (outcomes registry s r). \<forall>ls. out = Inr ls \<longrightarrow> length ls \<le> length ([]::'a list))"
  then show ?thesis by auto
next
  assume "\<exists>before n after.
       outcomes registry s r = before @ (n, Inr links) # after \<and> best = Some n \<and>
       length ([]::'a list) < length links \<and>
       (\<forall>(n', out)\<in>set before. \<forall>ls. out = Inr ls \<longrightarrow> length ls < length links) \<and>
       (\<forall>(n', out)\<in>set after. \<forall>ls. out = Inr ls \<longrightarrow> length ls \<le> length links)"
  then obtain before n after where w:
    "outcomes registry s r = before @ (n, Inr links) # after" "best = Some n"
    "length ([]::'a list) < length links"
    "\<forall>(n', out)\<in>set before. \<forall>ls. out = Inr ls \<longrightarrow> length ls < length links"
    "\<forall>(n', out)\<in>set after. \<forall>ls. out = Inr ls \<longrightarrow> length ls \<le> length links"
    by blast
  from w(3) have "links \<noteq> []" by auto
  with w show ?thesis by blast
qed

lemma run_parser_functions_loop:
  "fst (run_parser_functions registry to_parse timer root_url)
   = Return (fst (parser_loop registry to_parse root_url ([], None)))"
  by (simp add: run_parser_functions_def split: prod.splits)

lemma parser_loop_stream:
  "snd (parser_loop ps s r best) = snd (parser_loop ps s r best')"
proof (induction ps arbitrary: s best best')
  case Nil
  then show ?case by simp
next
  case (Cons p ps)
  obtain n f where p: "p = (n, f)" by (cases p)
  show ?case unfolding p parser_loop_Cons by (rule Cons.IH)
qed

lemma outcomes_split:
  "outcomes ps s r = before @ (n, out) # after \<Longrightarrow>
   \<exists>xs f ys. ps = xs @ (n, f) # ys \<and> outcomes xs s r = before
     \<and> out = fst (f (snd (parser_loop xs s r best)) r)"
proof (induction ps arbitrary: s before best)
  case Nil
  then show ?case by simp
next
  case (Cons p ps)
  obtain n0 f0 where p: "p = (n0, f0)" by (cases p)
  from Cons.prems have outs:
    "(n0, fst (f0 s r)) # outcomes ps (snd (f0 s r)) r = before @ (n, out) # after"
    by (simp add: p)
  show ?case
  proof (cases before)
    case Nil
    with outs have "n0 = n" "out = fst (f0 s r)" by simp_all
    then have "p # ps = [] @ (n, f0) # ps \<and> outcomes [] s r = before
      \<and> out = fst (f0 (snd (parser_loop [] s r best)) r)"
      using p Nil by simp
    then show ?thesis by blast
  next
    case (Cons b before')
    with outs have b: "b = (n0, fst (f0 s r))"
      and rest: "outcomes ps (snd (f0 s r)) r = before' @ (n, out) # after"
      by simp_all
    let ?best = "case fst (try_parser n0 f0 s r best) of Inl err \<Rightarrow> best | Inr best' \<Rightarrow> best'"
    from Cons.IH [OF rest, of ?best] obtain xs f ys where
      w: "ps = xs @ (n, f) # ys" "outcomes xs (snd (f0 s r)) r = before'"
         "out = fst (f (snd (parser_loop xs (snd (f0 s r)) r ?best)) r)"
      by blast
    have "p # ps = ((n0, f0) # xs) @ (n, f) # ys" using w(1) p by simp
    moreover have "outcomes ((n0, f0) # xs) s r = before" using w(2) b Cons by simp
    moreover have "out = fst (f (snd (parser_loop ((n0, f0) # xs) s r best)) r)"
      using w(3) by (simp only: parser_loop_Cons)
    ultimately show ?thesis by blast
  qed
qed

text \<open>
  C1. In every run, each registry entry gives one outcome, in registry order: what
  its parser gives on the stream as the entries before it left it. The pair returned
  by \<^verbatim>\<open>run_parser_functions\<close> is either \<open>([], None)\<close>, when no parser returned a
  record, or the output and the name of one entry that returned strictly more
  records than every entry before it and at least as many as every entry after it:
  a later parser with an equal count does not replace it, since the comparison is a
  strict \<open>>\<close>.
\<close>

theorem run_parser_functions_first_largest:
  assumes "fst (run_parser_functions registry to_parse timer root_url) = Return (links, best)"
  shows "map fst (outcomes registry to_parse root_url) = map fst registry
       \<and> ((links = [] \<and> best = None
            \<and> (\<forall>(n', out) \<in> set (outcomes registry to_parse root_url).
                  \<forall>ls. out = Inr ls \<longrightarrow> ls = []))
          \<or> (\<exists>before n after earlier f later.
                outcomes registry to_parse root_url = before @ (n, Inr links) # after
                \<and> registry = earlier @ (n, f) # later
                \<and> outcomes earlier to_parse root_url = before
                \<and> fst (f (snd (run_parser_functions earlier to_parse timer root_url)) root_url)
                    = Inr links
                \<and> best = Some n \<and> links \<noteq> []
                \<and> (\<forall>(n', out) \<in> set before. \<forall>ls. out = Inr ls \<longrightarrow> length ls < length links)
                \<and> (\<forall>(n', out) \<in> set after. \<forall>ls. out = Inr ls \<longrightarrow> length ls \<le> length links)))"
proof -
  from assms have "fst (parser_loop registry to_parse root_url ([], None)) = (links, best)"
    by (simp add: run_parser_functions_loop)
  then have "(links = [] \<and> best = None
            \<and> (\<forall>(n', out) \<in> set (outcomes registry to_parse root_url).
                  \<forall>ls. out = Inr ls \<longrightarrow> ls = []))
          \<or> (\<exists>before n after.
                outcomes registry to_parse root_url = before @ (n, Inr links) # after
                \<and> best = Some n \<and> links \<noteq> []
                \<and> (\<forall>(n', out) \<in> set before. \<forall>ls. out = Inr ls \<longrightarrow> length ls < length links)
                \<and> (\<forall>(n', out) \<in> set after. \<forall>ls. out = Inr ls \<longrightarrow> length ls \<le> length links))"
    by (rule parser_loop_run)
  then show ?thesis
  proof
    assume "links = [] \<and> best = None
            \<and> (\<forall>(n', out) \<in> set (outcomes registry to_parse root_url).
                  \<forall>ls. out = Inr ls \<longrightarrow> ls = [])"
    then show ?thesis by (simp add: outcomes_names)
  next
    assume "\<exists>before n after.
                outcomes registry to_parse root_url = before @ (n, Inr links) # after
                \<and> best = Some n \<and> links \<noteq> []
                \<and> (\<forall>(n', out) \<in> set before. \<forall>ls. out = Inr ls \<longrightarrow> length ls < length links)
                \<and> (\<forall>(n', out) \<in> set after. \<forall>ls. out = Inr ls \<longrightarrow> length ls \<le> length links)"
    then obtain before n after where w:
      "outcomes registry to_parse root_url = before @ (n, Inr links) # after"
      "best = Some n" "links \<noteq> []"
      "\<forall>(n', out) \<in> set before. \<forall>ls. out = Inr ls \<longrightarrow> length ls < length links"
      "\<forall>(n', out) \<in> set after. \<forall>ls. out = Inr ls \<longrightarrow> length ls \<le> length links"
      by blast
    from outcomes_split [OF w(1), of "([], None)"] obtain earlier f later where
      e: "registry = earlier @ (n, f) # later" "outcomes earlier to_parse root_url = before"
         "Inr links = fst (f (snd (parser_loop earlier to_parse root_url ([], None))) root_url)"
      by blast
    have "snd (run_parser_functions earlier to_parse timer root_url)
          = snd (parser_loop earlier to_parse root_url ([], None))"
      by (simp add: run_parser_functions_def split: prod.splits)
    with e(3) have "fst (f (snd (run_parser_functions earlier to_parse timer root_url)) root_url)
                    = Inr links"
      by simp
    with w e(1,2) have "\<exists>before n after earlier f later.
                outcomes registry to_parse root_url = before @ (n, Inr links) # after
                \<and> registry = earlier @ (n, f) # later
                \<and> outcomes earlier to_parse root_url = before
                \<and> fst (f (snd (run_parser_functions earlier to_parse timer root_url)) root_url)
                    = Inr links
                \<and> best = Some n \<and> links \<noteq> []
                \<and> (\<forall>(n', out) \<in> set before. \<forall>ls. out = Inr ls \<longrightarrow> length ls < length links)
                \<and> (\<forall>(n', out) \<in> set after. \<forall>ls. out = Inr ls \<longrightarrow> length ls \<le> length links)"
      by blast
    then show ?thesis by (simp add: outcomes_names)
  qed
qed

text \<open>
  An instance: the first parser raises, the second and third return two records
  each, the fourth one record; the second one is kept.
\<close>

theorem run_parser_functions_first_largest_witness:
  "fst (run_parser_functions
     [(''A'', \<lambda>s r. (Inl (Exception ''not this format''), s)),
      (''B'', \<lambda>s r. (Inr [''u1'', ''u2''], s)),
      (''C'', \<lambda>s r. (Inr [''v1'', ''v2''], s)),
      (''D'', \<lambda>s r. (Inr [''w''], s))]
     \<lparr>io_name = Some ''in.txt'', io_text = ''text'', io_pos = 0\<rparr> (TimedProgress 240) None)
   = Return ([''u1'', ''u2''], Some ''B'')
   \<and> outcomes
       [(''A'', \<lambda>s r. (Inl (Exception ''not this format''), s)),
        (''B'', \<lambda>s r. (Inr [''u1'', ''u2''], s)),
        (''C'', \<lambda>s r. (Inr [''v1'', ''v2''], s)),
        (''D'', \<lambda>s r. (Inr [''w''], s))]
       \<lparr>io_name = Some ''in.txt'', io_text = ''text'', io_pos = 0\<rparr> None
     = [(''A'', Inl (Exception ''not this format'')),
        (''B'', Inr [''u1'', ''u2'']),
        (''C'', Inr [''v1'', ''v2'']),
        (''D'', Inr [''w''])]
   \<and> (\<exists>before after.
        outcomes
          [(''A'', \<lambda>s r. (Inl (Exception ''not this format''), s)),
           (''B'', \<lambda>s r. (Inr [''u1'', ''u2''], s)),
           (''C'', \<lambda>s r. (Inr [''v1'', ''v2''], s)),
           (''D'', \<lambda>s r. (Inr [''w''], s))]
          \<lparr>io_name = Some ''in.txt'', io_text = ''text'', io_pos = 0\<rparr> None
        = before @ (''B'', Inr [''u1'', ''u2'']) # after)"
proof -
  let ?reg = "[(''A'', \<lambda>(s::text_io) (r::string option). (Inl (Exception ''not this format''), s)),
      (''B'', \<lambda>s r. (Inr [''u1'', ''u2''], s)),
      (''C'', \<lambda>s r. (Inr [''v1'', ''v2''], s)),
      (''D'', \<lambda>s r. (Inr [''w''], s))]"
  let ?file = "\<lparr>io_name = Some ''in.txt'', io_text = ''text'', io_pos = 0\<rparr>"
  have run: "fst (run_parser_functions ?reg ?file (TimedProgress 240) None)
             = Return ([''u1'', ''u2''], Some ''B'')"
    by (simp add: run_parser_functions_def try_parser_def)
  have outs: "outcomes ?reg ?file None
     = [(''A'', Inl (Exception ''not this format'')),
        (''B'', Inr [''u1'', ''u2'']),
        (''C'', Inr [''v1'', ''v2'']),
        (''D'', Inr [''w''])]"
    by simp
  from run_parser_functions_first_largest [OF run]
  have "\<exists>before after. outcomes ?reg ?file None = before @ (''B'', Inr [''u1'', ''u2'']) # after"
    by blast
  with run outs show ?thesis by blast
qed

subsection \<open>A parser that always fails\<close>

text \<open>
  The parser that reads the stream to its end and raises does so on every input.
\<close>

lemma read_then_raise_fails: "\<exists>e. fst (read_then_raise s r) = Inl e"
  by (simp add: read_then_raise_def)






section \<open>Properties of the bulk entry points\<close>

lemma report_run_parser_functions:
  "report (fst (run_parser_functions registry file timer root_url)) =
     (case fst (parser_loop registry file root_url ([], None)) of
        (links, None) \<Rightarrow> Return ([], ''Failed to parse'')
      | (links, Some n) \<Rightarrow> Return (links, n))"
  by (simp add: report_def run_parser_functions_loop split: prod.splits option.splits)

lemma report_none:
  assumes "\<forall>(n, out) \<in> set (outcomes registry file root_url). \<forall>ls. out = Inr ls \<longrightarrow> ls = []"
  shows "report (fst (run_parser_functions registry file timer root_url))
         = Return ([], ''Failed to parse'')"
proof -
  obtain links best where run: "fst (parser_loop registry file root_url ([], None)) = (links, best)"
    by (cases "fst (parser_loop registry file root_url ([], None))")
  have "best = None"
  proof (rule ccontr)
    assume "best \<noteq> None"
    with parser_loop_run [OF run] obtain before n after where
      w: "outcomes registry file root_url = before @ (n, Inr links) # after" "links \<noteq> []"
      by blast
    from w(1) have "(n, Inr links) \<in> set (outcomes registry file root_url)" by simp
    with assms have "links = []" by blast
    with w(2) show False by simp
  qed
  with run show ?thesis by (simp add: report_run_parser_functions)
qed

lemma report_some:
  assumes "\<exists>(n, out) \<in> set (outcomes registry file root_url). \<exists>ls. out = Inr ls \<and> ls \<noteq> []"
  shows "\<exists>links n. fst (run_parser_functions registry file timer root_url) = Return (links, Some n)
           \<and> links \<noteq> []
           \<and> report (fst (run_parser_functions registry file timer root_url)) = Return (links, n)"
proof -
  obtain links best where run: "fst (parser_loop registry file root_url ([], None)) = (links, best)"
    by (cases "fst (parser_loop registry file root_url ([], None))")
  from parser_loop_run [OF run] assms obtain n where "best = Some n" "links \<noteq> []"
    by blast
  with run show ?thesis
    by (simp add: report_def run_parser_functions_loop)
qed

text \<open>
  C4. Both entry points hand the stream to the dispatcher and report its result.
  On an input where every parser of the registry, in the run, raises or returns no
  record, each returns the empty list with the string \<open>''Failed to parse''\<close>, as a
  returned value. On an input where some parser returns a record, each returns the
  dispatcher's non-empty list of links with the name of the winning parser. For
  \<^verbatim>\<open>parse_links\<close> the input is the text of the file at \<open>source_file\<close>.
\<close>

theorem bulk_entry_points_report:
  assumes "files source_file = Some contents"
  shows
    "((\<forall>(n, out) \<in> set (outcomes registry (memory_file urls) root_url).
          \<forall>ls. out = Inr ls \<longrightarrow> ls = []) \<longrightarrow>
        parse_links_memory registry TIMEOUT urls root_url = Return ([], ''Failed to parse''))
     \<and> ((\<exists>(n, out) \<in> set (outcomes registry (memory_file urls) root_url).
          \<exists>ls. out = Inr ls \<and> ls \<noteq> []) \<longrightarrow>
        (\<exists>links n.
           fst (run_parser_functions registry (memory_file urls) (TimedProgress (TIMEOUT * 4))
                  root_url)
             = Return (links, Some n)
           \<and> links \<noteq> []
           \<and> parse_links_memory registry TIMEOUT urls root_url = Return (links, n)))
     \<and> ((\<forall>(n, out) \<in> set (outcomes registry
                                \<lparr>io_name = Some source_file, io_text = contents, io_pos = 0\<rparr>
                                root_url).
          \<forall>ls. out = Inr ls \<longrightarrow> ls = []) \<longrightarrow>
        parse_links files registry TIMEOUT source_file root_url = Return ([], ''Failed to parse''))
     \<and> ((\<exists>(n, out) \<in> set (outcomes registry
                                \<lparr>io_name = Some source_file, io_text = contents, io_pos = 0\<rparr>
                                root_url).
          \<exists>ls. out = Inr ls \<and> ls \<noteq> []) \<longrightarrow>
        (\<exists>links n.
           fst (run_parser_functions registry
                  \<lparr>io_name = Some source_file, io_text = contents, io_pos = 0\<rparr>
                  (TimedProgress (TIMEOUT * 4)) root_url)
             = Return (links, Some n)
           \<and> links \<noteq> []
           \<and> parse_links files registry TIMEOUT source_file root_url = Return (links, n)))"
proof -
  have m: "parse_links_memory registry TIMEOUT urls root_url
           = report (fst (run_parser_functions registry (memory_file urls)
                            (TimedProgress (TIMEOUT * 4)) root_url))"
    by (simp add: parse_links_memory_def)
  have f: "parse_links files registry TIMEOUT source_file root_url
           = report (fst (run_parser_functions registry
               \<lparr>io_name = Some source_file, io_text = contents, io_pos = 0\<rparr>
               (TimedProgress (TIMEOUT * 4)) root_url))"
    using assms by (simp add: parse_links_def)
  show ?thesis
    unfolding m f
  proof (intro conjI impI)
    assume "\<forall>(n, out) \<in> set (outcomes registry (memory_file urls) root_url).
              \<forall>ls. out = Inr ls \<longrightarrow> ls = []"
    then show "report (fst (run_parser_functions registry (memory_file urls)
                              (TimedProgress (TIMEOUT * 4)) root_url))
               = Return ([], ''Failed to parse'')"
      by (rule report_none)
  next
    assume "\<exists>(n, out) \<in> set (outcomes registry (memory_file urls) root_url).
              \<exists>ls. out = Inr ls \<and> ls \<noteq> []"
    then show "\<exists>links n.
        fst (run_parser_functions registry (memory_file urls) (TimedProgress (TIMEOUT * 4))
               root_url)
          = Return (links, Some n)
        \<and> links \<noteq> []
        \<and> report (fst (run_parser_functions registry (memory_file urls)
                           (TimedProgress (TIMEOUT * 4)) root_url))
          = Return (links, n)"
      by (rule report_some)
  next
    assume "\<forall>(n, out) \<in> set (outcomes registry
                                \<lparr>io_name = Some source_file, io_text = contents, io_pos = 0\<rparr>
                                root_url).
              \<forall>ls. out = Inr ls \<longrightarrow> ls = []"
    then show "report (fst (run_parser_functions registry
                 \<lparr>io_name = Some source_file, io_text = contents, io_pos = 0\<rparr>
                 (TimedProgress (TIMEOUT * 4)) root_url))
               = Return ([], ''Failed to parse'')"
      by (rule report_none)
  next
    assume "\<exists>(n, out) \<in> set (outcomes registry
                                \<lparr>io_name = Some source_file, io_text = contents, io_pos = 0\<rparr>
                                root_url).
              \<exists>ls. out = Inr ls \<and> ls \<noteq> []"
    then show "\<exists>links n.
        fst (run_parser_functions registry
               \<lparr>io_name = Some source_file, io_text = contents, io_pos = 0\<rparr>
               (TimedProgress (TIMEOUT * 4)) root_url)
          = Return (links, Some n)
        \<and> links \<noteq> []
        \<and> report (fst (run_parser_functions registry
                 \<lparr>io_name = Some source_file, io_text = contents, io_pos = 0\<rparr>
                 (TimedProgress (TIMEOUT * 4)) root_url))
          = Return (links, n)"
      by (rule report_some)
  qed
qed

text \<open>
  Two instances over one file system: a registry where one parser raises and the
  other returns nothing, and a registry where the second parser returns one link.
\<close>

theorem bulk_entry_points_report_witness:
  "[''/tmp/in.txt'' \<mapsto> ''no links here''] ''/tmp/in.txt'' = Some ''no links here''
   \<and> parse_links_memory
        [(''J'', read_then_raise), (''T'', \<lambda>s r. (Inr [], s))]
        60 [''nothing''] None
      = Return ([], ''Failed to parse'')
   \<and> parse_links [''/tmp/in.txt'' \<mapsto> ''no links here'']
        [(''J'', read_then_raise), (''T'', \<lambda>s r. (Inr [], s))]
        60 ''/tmp/in.txt'' None
      = Return ([], ''Failed to parse'')
   \<and> parse_links_memory
        [(''J'', read_then_raise), (''T'', rewind_read_as_link)]
        60 [''https://example.com''] None
      = Return ([''https://example.com''], ''T'')
   \<and> parse_links [''/tmp/in.txt'' \<mapsto> ''no links here'']
        [(''J'', read_then_raise), (''T'', rewind_read_as_link)]
        60 ''/tmp/in.txt'' None
      = Return ([''no links here''], ''T'')"
proof -
  let ?files = "[''/tmp/in.txt'' \<mapsto> ''no links here'']"
  let ?lose = "[(''J'', read_then_raise), (''T'', \<lambda>(s::text_io) (r::string option). (Inr [], s))]"
  let ?win = "[(''J'', read_then_raise), (''T'', rewind_read_as_link)]"
  have there: "?files ''/tmp/in.txt'' = Some ''no links here''" by simp
  have mem: "memory_file [''https://example.com'']
             = \<lparr>io_name = Some ''io_string'', io_text = ''https://example.com'', io_pos = 19\<rparr>"
    by (simp add: memory_file_def io_writelines_def io_write_def StringIO_def)
  note lose = bulk_entry_points_report [where files = ?files and source_file = "''/tmp/in.txt''"
      and contents = "''no links here''" and registry = ?lose and urls = "[''nothing'']"
      and root_url = None and TIMEOUT = 60, OF there]
  note win = bulk_entry_points_report [where files = ?files and source_file = "''/tmp/in.txt''"
      and contents = "''no links here''" and registry = ?win and urls = "[''https://example.com'']"
      and root_url = None and TIMEOUT = 60, OF there]
  have "parse_links_memory ?lose 60 [''nothing''] None = Return ([], ''Failed to parse'')"
    using lose by (simp add: read_then_raise_def)
  moreover have "parse_links ?files ?lose 60 ''/tmp/in.txt'' None = Return ([], ''Failed to parse'')"
    using lose by (simp add: read_then_raise_def)
  moreover have "parse_links_memory ?win 60 [''https://example.com''] None
                 = Return ([''https://example.com''], ''T'')"
    using win
    by (simp add: mem run_parser_functions_def try_parser_def read_then_raise_def
        rewind_read_as_link_def)
  moreover have "parse_links ?files ?win 60 ''/tmp/in.txt'' None = Return ([''no links here''], ''T'')"
    using win
    by (simp add: run_parser_functions_def try_parser_def read_then_raise_def
        rewind_read_as_link_def)
  ultimately show ?thesis using there by simp
qed

subsection \<open>The winning name comes from the registry\<close>

lemma parser_loop_name:
  assumes "fst (parser_loop registry s r ([], None)) = (links, Some n)"
  shows "n \<in> fst ` set registry"
proof -
  from parser_loop_run [OF assms] obtain before after where
    "outcomes registry s r = before @ (n, Inr links) # after" by auto
  then have "n \<in> set (map fst (outcomes registry s r))" by simp
  then show ?thesis by (simp add: outcomes_names)
qed

lemma report_name:
  assumes "report (fst (run_parser_functions registry file timer root_url)) = Return (links, name)"
  shows "(links = [] \<and> name = ''Failed to parse'') \<or> name \<in> fst ` set registry"
proof -
  obtain ls best where run: "fst (parser_loop registry file root_url ([], None)) = (ls, best)"
    by (cases "fst (parser_loop registry file root_url ([], None))")
  show ?thesis
  proof (cases best)
    case None
    with run assms show ?thesis by (simp add: report_run_parser_functions)
  next
    case (Some n)
    with run assms have "name = n" by (simp add: report_run_parser_functions)
    with run Some parser_loop_name show ?thesis by blast
  qed
qed

lemma PARSERS_names:
  "map fst (PARSERS m) =
     [''Pocket API'', ''Wallabag ATOM'', ''Pocket HTML'', ''Pinboard RSS'', ''Shaarli RSS'',
      ''Medium RSS'', ''Netscape HTML'', ''Generic RSS'', ''Generic JSON'', ''Generic HTML'',
      ''Plain Text'']"
  by (simp add: PARSERS_def)

text \<open>
  C10. A name returned by \<^verbatim>\<open>run_parser_functions\<close> over \<^verbatim>\<open>PARSERS\<close> is one of the
  eleven registered names; a name returned by \<^verbatim>\<open>parse_links_memory\<close> or
  \<^verbatim>\<open>parse_links\<close> is one of them too, unless it is the failure string that comes with
  the empty list. The registry has eleven entries with distinct names, and its last
  entry is \<open>''Plain Text''\<close> with the plain-text parser.
\<close>

theorem winning_name_is_registered:
  "(fst (run_parser_functions (PARSERS m) to_parse timer root_url) = Return (links, Some n)
      \<longrightarrow> n \<in> set [''Pocket API'', ''Wallabag ATOM'', ''Pocket HTML'', ''Pinboard RSS'',
                    ''Shaarli RSS'', ''Medium RSS'', ''Netscape HTML'', ''Generic RSS'',
                    ''Generic JSON'', ''Generic HTML'', ''Plain Text''])
   \<and> (parse_links_memory (PARSERS m) TIMEOUT urls root_url = Return (links', name)
      \<longrightarrow> (links' = [] \<and> name = ''Failed to parse'')
          \<or> name \<in> set [''Pocket API'', ''Wallabag ATOM'', ''Pocket HTML'', ''Pinboard RSS'',
                    ''Shaarli RSS'', ''Medium RSS'', ''Netscape HTML'', ''Generic RSS'',
                    ''Generic JSON'', ''Generic HTML'', ''Plain Text''])
   \<and> (parse_links files (PARSERS m) TIMEOUT source_file root_url = Return (links'', name')
      \<longrightarrow> (links'' = [] \<and> name' = ''Failed to parse'')
          \<or> name' \<in> set [''Pocket API'', ''Wallabag ATOM'', ''Pocket HTML'', ''Pinboard RSS'',
                    ''Shaarli RSS'', ''Medium RSS'', ''Netscape HTML'', ''Generic RSS'',
                    ''Generic JSON'', ''Generic HTML'', ''Plain Text''])
   \<and> length (PARSERS m) = 11
   \<and> distinct (map fst (PARSERS m))
   \<and> fst (last (PARSERS m)) = ''Plain Text''
   \<and> snd (last (PARSERS m)) = parse_generic_txt_export m"
proof -
  let ?names = "[''Pocket API'', ''Wallabag ATOM'', ''Pocket HTML'', ''Pinboard RSS'',
                    ''Shaarli RSS'', ''Medium RSS'', ''Netscape HTML'', ''Generic RSS'',
                    ''Generic JSON'', ''Generic HTML'', ''Plain Text'']"
  have names: "fst ` set (PARSERS m) = set ?names"
    using PARSERS_names [of m] by (metis set_map)
  have 1: "n \<in> set ?names"
    if "fst (run_parser_functions (PARSERS m) to_parse timer root_url) = Return (links, Some n)"
  proof -
    from that have "fst (parser_loop (PARSERS m) to_parse root_url ([], None)) = (links, Some n)"
      by (simp add: run_parser_functions_loop)
    then have "n \<in> fst ` set (PARSERS m)" by (rule parser_loop_name)
    with names show ?thesis by simp
  qed
  have 2: "(links' = [] \<and> name = ''Failed to parse'') \<or> name \<in> set ?names"
    if "parse_links_memory (PARSERS m) TIMEOUT urls root_url = Return (links', name)"
    using that report_name [of "PARSERS m" "memory_file urls" "TimedProgress (TIMEOUT * 4)" root_url links' name]
      names by (simp add: parse_links_memory_def)
  have 3: "(links'' = [] \<and> name' = ''Failed to parse'') \<or> name' \<in> set ?names"
    if p: "parse_links files (PARSERS m) TIMEOUT source_file root_url = Return (links'', name')"
  proof (cases "files source_file")
    case None
    with p show ?thesis by (simp add: parse_links_def)
  next
    case (Some body)
    with p report_name [of "PARSERS m" "\<lparr>io_name = Some source_file, io_text = body, io_pos = 0\<rparr>"
        "TimedProgress (TIMEOUT * 4)" root_url links'' name'] names
    show ?thesis by (simp add: parse_links_def)
  qed
  have 4: "length (PARSERS m) = 11" by (simp add: PARSERS_def)
  have 5: "distinct (map fst (PARSERS m))" by (simp add: PARSERS_names)
  have 6: "fst (last (PARSERS m)) = ''Plain Text''" by (simp add: PARSERS_def)
  have 7: "snd (last (PARSERS m)) = parse_generic_txt_export m" by (simp add: PARSERS_def)
  from 1 2 3 4 5 6 7 show ?thesis by blast
qed

text \<open>
  An instance: only the plain-text parser returns a record, and its name is returned.
\<close>

theorem winning_name_is_registered_witness:
  "fst (run_parser_functions
     (PARSERS \<lparr>parse_pocket_html_export = \<lambda>s r. (Inl (Exception ''no match''), s),
               parse_pocket_api_export = read_then_raise,
               parse_pinboard_rss_export = \<lambda>s r. (Inl (Exception ''no match''), s),
               parse_wallabag_atom_export = \<lambda>s r. (Inl (Exception ''no match''), s),
               parse_shaarli_rss_export = \<lambda>s r. (Inl (Exception ''no match''), s),
               parse_medium_rss_export = \<lambda>s r. (Inl (Exception ''no match''), s),
               parse_netscape_html_export = \<lambda>s r. (Inr [], s),
               parse_generic_rss_export = \<lambda>s r. (Inl (Exception ''no match''), s),
               parse_generic_json_export = read_then_raise,
               parse_generic_html_export = \<lambda>s r. (Inr [], s),
               parse_generic_txt_export = rewind_read_as_link\<rparr>)
     \<lparr>io_name = Some ''in.txt'', io_text = ''https://example.com'', io_pos = 0\<rparr>
     (TimedProgress 240) None)
   = Return ([''https://example.com''], Some ''Plain Text'')
   \<and> ''Plain Text'' \<in> set [''Pocket API'', ''Wallabag ATOM'', ''Pocket HTML'', ''Pinboard RSS'',
                    ''Shaarli RSS'', ''Medium RSS'', ''Netscape HTML'', ''Generic RSS'',
                    ''Generic JSON'', ''Generic HTML'', ''Plain Text'']"
proof -
  let ?m = "\<lparr>parse_pocket_html_export = \<lambda>(s::text_io) (r::string option). (Inl (Exception ''no match''), s),
               parse_pocket_api_export = read_then_raise,
               parse_pinboard_rss_export = \<lambda>s r. (Inl (Exception ''no match''), s),
               parse_wallabag_atom_export = \<lambda>s r. (Inl (Exception ''no match''), s),
               parse_shaarli_rss_export = \<lambda>s r. (Inl (Exception ''no match''), s),
               parse_medium_rss_export = \<lambda>s r. (Inl (Exception ''no match''), s),
               parse_netscape_html_export = \<lambda>s r. (Inr [], s),
               parse_generic_rss_export = \<lambda>s r. (Inl (Exception ''no match''), s),
               parse_generic_json_export = read_then_raise,
               parse_generic_html_export = \<lambda>s r. (Inr [], s),
               parse_generic_txt_export = rewind_read_as_link\<rparr>"
  let ?file = "\<lparr>io_name = Some ''in.txt'', io_text = ''https://example.com'', io_pos = 0\<rparr>"
  have run: "fst (run_parser_functions (PARSERS ?m) ?file (TimedProgress 240) None)
             = Return ([''https://example.com''], Some ''Plain Text'')"
    by (simp add: run_parser_functions_def PARSERS_def try_parser_def read_then_raise_def
        rewind_read_as_link_def)
  from winning_name_is_registered [where m = ?m and to_parse = ?file and timer = "TimedProgress 240"
      and root_url = None and links = "[''https://example.com'']" and n = "''Plain Text''"]
    run
  have "''Plain Text'' \<in> set [''Pocket API'', ''Wallabag ATOM'', ''Pocket HTML'', ''Pinboard RSS'',
                    ''Shaarli RSS'', ''Medium RSS'', ''Netscape HTML'', ''Generic RSS'',
                    ''Generic JSON'', ''Generic HTML'', ''Plain Text'']"
    by blast
  with run show ?thesis by blast
qed

subsection \<open>The buffer of the in-memory entry point\<close>

lemma io_write_at_end:
  assumes "io_pos buf = length (io_text buf)"
  shows "io_write buf s = buf\<lparr>io_text := io_text buf @ s, io_pos := length (io_text buf @ s)\<rparr>"
  using assms by (simp add: io_write_def)

lemma io_writelines_at_end:
  "io_pos buf = length (io_text buf) \<Longrightarrow>
   io_writelines buf strs
   = buf\<lparr>io_text := io_text buf @ concat strs,
          io_pos := length (io_text buf @ concat strs)\<rparr>"
  unfolding io_writelines_def
proof (induction strs arbitrary: buf)
  case Nil
  then show ?case by simp
next
  case (Cons l strs)
  have "io_pos (io_write buf l) = length (io_text (io_write buf l))"
    using Cons.prems by (simp add: io_write_at_end)
  from Cons.IH [OF this] Cons.prems show ?case
    by (simp add: io_write_at_end)
qed

lemma memory_file_concat:
  "memory_file urls
   = \<lparr>io_name = Some ''io_string'', io_text = concat urls, io_pos = length (concat urls)\<rparr>"
  by (simp add: memory_file_def io_writelines_at_end StringIO_def)

text \<open>
  What the parsers get from \<^verbatim>\<open>parse_links_memory\<close>: a stream named \<open>''io_string''\<close>
  whose text is the URL strings written one after the other in list order, with
  nothing inserted between them, and whose position is the end of that text.
\<close>

lemma parse_links_memory_buffer:
  "parse_links_memory registry TIMEOUT urls root_url
   = report (fst (run_parser_functions registry
       \<lparr>io_name = Some ''io_string'', io_text = concat urls, io_pos = length (concat urls)\<rparr>
       (TimedProgress (TIMEOUT * 4)) root_url))"
  by (simp add: parse_links_memory_def memory_file_concat)

text \<open>
  C7 fails on the code. For the two URLs \<open>https://a.example\<close> and \<open>https://b.example\<close>
  the buffer handed to the parsers has no newline between them: it is not the
  newline-delimited text of the two URLs, and the first URL runs into the second.
  (\<^verbatim>\<open>writelines\<close> adds no line separator, and the line that would append a newline to
  each URL is commented out.)
\<close>

theorem memory_buffer_not_newline_delimited:
  "io_text (memory_file [''https://a.example'', ''https://b.example''])
     = ''https://a.examplehttps://b.example''
   \<and> spec_newline_delimited [''https://a.example'', ''https://b.example'']
     = ''https://a.example'' @ [CHR 0x0A] @ ''https://b.example''
   \<and> io_text (memory_file [''https://a.example'', ''https://b.example''])
     \<noteq> spec_newline_delimited [''https://a.example'', ''https://b.example'']"
  by (simp add: memory_file_concat)

section \<open>Properties of source capture\<close>

lemma remote_iff:
  "list_ex (\<lambda>s. prefix s path) [''http://'', ''https://'', ''ftp://'']
   = (\<exists>scheme \<in> {''http'', ''https'', ''ftp''}. prefix (scheme @ ''://'') path)"
  by simp

lemma test_format:
  "format_fields [(''basename'', b), (''ts'', t)] None ''{ts}-{basename}.txt'' = Inr (t @ ''-'' @ b @ ''.txt'')"
  by simp

text \<open>
  C5. Once the file name has been formatted, \<^verbatim>\<open>save_file_as_source\<close> requests a
  download of its location exactly when the location starts with \<open>scheme://\<close> for a
  scheme among \<open>http\<close>, \<open>https\<close>, \<open>ftp\<close>; exactly otherwise it opens the location as a
  local file, and then what it writes is the text of that file.
\<close>

theorem save_file_as_source_remote_iff:
  assumes "str_format env filename [(''basename'', basename env path), (''ts'', timestamp now)]
           = Inr formatted"
  shows "(Download path timeout
            \<in> set (effects (save_file_as_source env now files path timeout filename out_dir)))
         = (\<exists>scheme \<in> {''http'', ''https'', ''ftp''}. prefix (scheme @ ''://'') path)
       \<and> (Open path
            \<in> set (effects (save_file_as_source env now files path timeout filename out_dir)))
         = (\<not> (\<exists>scheme \<in> {''http'', ''https'', ''ftp''}. prefix (scheme @ ''://'') path))
       \<and> (\<forall>raw. \<not> (\<exists>scheme \<in> {''http'', ''https'', ''ftp''}. prefix (scheme @ ''://'') path)
                   \<and> files path = Some raw \<longrightarrow>
             outcome (save_file_as_source env now files path timeout filename out_dir)
               = Return (path_str env (joinpath env (joinpath env (OUTPUT_DIR env) (SOURCES_DIR_NAME env)) formatted))
             \<and> files_after (save_file_as_source env now files path timeout filename out_dir)
                  (path_str env (joinpath env (joinpath env (OUTPUT_DIR env) (SOURCES_DIR_NAME env)) formatted))
               = Some raw)"
proof (cases "list_ex (\<lambda>s. prefix s path) [''http://'', ''https://'', ''ftp://'']")
  case True
  then have r: "\<exists>scheme \<in> {''http'', ''https'', ''ftp''}. prefix (scheme @ ''://'') path"
    unfolding remote_iff .
  have "Download path timeout
          \<in> set (effects (save_file_as_source env now files path timeout filename out_dir))"
    and "Open path
          \<notin> set (effects (save_file_as_source env now files path timeout filename out_dir))"
    using assms True
    by (auto simp: save_file_as_source_def save_source_def Let_def split: sum.splits)
  with r show ?thesis by blast
next
  case False
  then have r: "\<not> (\<exists>scheme \<in> {''http'', ''https'', ''ftp''}. prefix (scheme @ ''://'') path)"
    unfolding remote_iff .
  have "Download path timeout
          \<notin> set (effects (save_file_as_source env now files path timeout filename out_dir))"
    and "Open path
          \<in> set (effects (save_file_as_source env now files path timeout filename out_dir))"
    and "\<forall>raw. files path = Some raw \<longrightarrow>
             outcome (save_file_as_source env now files path timeout filename out_dir)
               = Return (path_str env (joinpath env (joinpath env (OUTPUT_DIR env) (SOURCES_DIR_NAME env)) formatted))
             \<and> files_after (save_file_as_source env now files path timeout filename out_dir)
                  (path_str env (joinpath env (joinpath env (OUTPUT_DIR env) (SOURCES_DIR_NAME env)) formatted))
               = Some raw"
    using assms False
    by (auto simp: save_file_as_source_def save_source_def Let_def split: option.splits)
  with r show ?thesis by blast
qed

text \<open>
  An instance: an \<open>https\<close> location is downloaded and not opened as a file.
\<close>

theorem save_file_as_source_remote_iff_witness:
  "str_format (test_environment [''https://example.com/feed.xml'' \<mapsto> ''<rss/>''])
     ''{ts}-{basename}.txt''
     [(''basename'', basename (test_environment [''https://example.com/feed.xml'' \<mapsto> ''<rss/>''])
                       ''https://example.com/feed.xml''),
      (''ts'', timestamp ''1604000000.25'')]
   = Inr ''1604000000-feed.xml.txt''
   \<and> Download ''https://example.com/feed.xml'' 60
       \<in> set (effects (save_file_as_source
                  (test_environment [''https://example.com/feed.xml'' \<mapsto> ''<rss/>''])
                  ''1604000000.25'' Map.empty ''https://example.com/feed.xml'' 60
                  ''{ts}-{basename}.txt'' ''/data''))
   \<and> Open ''https://example.com/feed.xml''
       \<notin> set (effects (save_file_as_source
                  (test_environment [''https://example.com/feed.xml'' \<mapsto> ''<rss/>''])
                  ''1604000000.25'' Map.empty ''https://example.com/feed.xml'' 60
                  ''{ts}-{basename}.txt'' ''/data''))"
proof -
  let ?env = "test_environment [''https://example.com/feed.xml'' \<mapsto> ''<rss/>'']"
  have fmt: "str_format ?env ''{ts}-{basename}.txt''
     [(''basename'', basename ?env ''https://example.com/feed.xml''),
      (''ts'', timestamp ''1604000000.25'')]
   = Inr ''1604000000-feed.xml.txt''"
    by (simp add: test_environment_def timestamp_def)
  from save_file_as_source_remote_iff [OF fmt, of 60 Map.empty "''/data''"] fmt
  show ?thesis by simp
qed

text \<open>
  C6. When the location is remote and \<^verbatim>\<open>download_url\<close> or \<^verbatim>\<open>htmldecode\<close> raises,
  \<^verbatim>\<open>save_file_as_source\<close> ends with \<^verbatim>\<open>SystemExit(1)\<close>, a non-zero status, after
  printing the failure and the exception. It requests the download once, writes no
  file and returns nothing.
\<close>

theorem save_file_as_source_fetch_failure:
  assumes "str_format env filename [(''basename'', basename env path), (''ts'', timestamp now)]
           = Inr formatted"
    and "list_ex (\<lambda>s. prefix s path) [''http://'', ''https://'', ''ftp://'']"
    and "download_url env path timeout = Inl e
         \<or> (\<exists>page. download_url env path timeout = Inr page \<and> htmldecode env page = Inl e)"
  shows "outcome (save_file_as_source env now files path timeout filename out_dir) = SystemExit 1
       \<and> (1::int) \<noteq> 0
       \<and> effects (save_file_as_source env now files path timeout filename out_dir)
         = [Print (''    > Downloading '' @ path @ '' contents''),
            Download path timeout,
            Print (ANSI env ''red'' @ ''[!] Failed to download '' @ path @ ANSI env ''reset''
                   @ [CHR 0x0A]),
            Print (''     '' @ exception_str e)]
       \<and> files_after (save_file_as_source env now files path timeout filename out_dir) = files"
  using assms
  by (auto simp: save_file_as_source_def Let_def split: sum.splits)

text \<open>
  An instance: the page is not on the web, and the file system is left as it was.
\<close>

theorem save_file_as_source_fetch_failure_witness:
  "str_format (test_environment Map.empty) ''{ts}-{basename}.txt''
     [(''basename'', basename (test_environment Map.empty) ''https://example.com/feed.xml''),
      (''ts'', timestamp ''1604000000.25'')]
   = Inr ''1604000000-feed.xml.txt''
   \<and> list_ex (\<lambda>s. prefix s ''https://example.com/feed.xml'') [''http://'', ''https://'', ''ftp://'']
   \<and> download_url (test_environment Map.empty) ''https://example.com/feed.xml'' 60
       = Inl (Exception ''URLError'')
   \<and> outcome (save_file_as_source (test_environment Map.empty) ''1604000000.25''
                [''/data/sources/old.txt'' \<mapsto> ''kept''] ''https://example.com/feed.xml'' 60
                ''{ts}-{basename}.txt'' ''/data'')
       = SystemExit 1
   \<and> files_after (save_file_as_source (test_environment Map.empty) ''1604000000.25''
                [''/data/sources/old.txt'' \<mapsto> ''kept''] ''https://example.com/feed.xml'' 60
                ''{ts}-{basename}.txt'' ''/data'')
       = [''/data/sources/old.txt'' \<mapsto> ''kept'']"
proof -
  let ?env = "test_environment Map.empty"
  have fmt: "str_format ?env ''{ts}-{basename}.txt''
     [(''basename'', basename ?env ''https://example.com/feed.xml''),
      (''ts'', timestamp ''1604000000.25'')]
   = Inr ''1604000000-feed.xml.txt''"
    by (simp add: test_environment_def timestamp_def)
  have remote: "list_ex (\<lambda>s. prefix s ''https://example.com/feed.xml'')
                  [''http://'', ''https://'', ''ftp://'']"
    by simp
  have down: "download_url ?env ''https://example.com/feed.xml'' 60 = Inl (Exception ''URLError'')"
    by (simp add: test_environment_def)
  have fails: "download_url ?env ''https://example.com/feed.xml'' 60 = Inl (Exception ''URLError'')
         \<or> (\<exists>page. download_url ?env ''https://example.com/feed.xml'' 60 = Inr page
                    \<and> htmldecode ?env page = Inl (Exception ''URLError''))"
    using down by simp
  from save_file_as_source_fetch_failure [OF fmt remote fails,
      of "[''/data/sources/old.txt'' \<mapsto> ''kept'']" "''/data''"]
  have "outcome (save_file_as_source ?env ''1604000000.25''
                [''/data/sources/old.txt'' \<mapsto> ''kept''] ''https://example.com/feed.xml'' 60
                ''{ts}-{basename}.txt'' ''/data'') = SystemExit 1"
    and "files_after (save_file_as_source ?env ''1604000000.25''
                [''/data/sources/old.txt'' \<mapsto> ''kept''] ''https://example.com/feed.xml'' 60
                ''{ts}-{basename}.txt'' ''/data'') = [''/data/sources/old.txt'' \<mapsto> ''kept'']"
    by blast+
  with fmt remote down show ?thesis by blast
qed

subsection \<open>The directory written to\<close>

lemma save_file_as_source_ignores_out_dir:
  "save_file_as_source env now files path timeout filename out_dir
   = save_file_as_source env now files path timeout filename out_dir'"
  by (simp add: save_file_as_source_def)

text \<open>
  C8 fails on the code. With \<^verbatim>\<open>OUTPUT_DIR\<close> being \<open>/data\<close> and the caller passing
  \<open>/tmp/other\<close> as \<open>out_dir\<close>, \<^verbatim>\<open>save_file_as_source\<close> writes to and returns a path
  under \<open>/data/sources\<close>, not under \<open>/tmp/other\<close>; \<^verbatim>\<open>save_text_as_source\<close>, with the
  same \<open>out_dir\<close>, returns a path under \<open>/tmp/other/sources\<close>.
\<close>

theorem save_file_as_source_not_under_out_dir:
  "OUTPUT_DIR (test_environment Map.empty) = ''/data''
   \<and> outcome (save_file_as_source (test_environment Map.empty) ''1604000000.25''
                [''/home/u/bookmarks.html'' \<mapsto> ''<a href=x>''] ''/home/u/bookmarks.html'' 60
                ''{ts}-{basename}.txt'' ''/tmp/other'')
       = Return ''/data/sources/1604000000-bookmarks.html.txt''
   \<and> effects (save_file_as_source (test_environment Map.empty) ''1604000000.25''
                [''/home/u/bookmarks.html'' \<mapsto> ''<a href=x>''] ''/home/u/bookmarks.html'' 60
                ''{ts}-{basename}.txt'' ''/tmp/other'')
       = [Open ''/home/u/bookmarks.html'',
          AtomicWrite ''/data/sources/1604000000-bookmarks.html.txt'' ''<a href=x>'',
          LogSourceSaved ''/data/sources/1604000000-bookmarks.html.txt'']
   \<and> \<not> prefix ''/tmp/other'' ''/data/sources/1604000000-bookmarks.html.txt''
   \<and> outcome (save_text_as_source (test_environment Map.empty) ''1604000000.25''
                Map.empty ''<a href=x>'' ''{ts}-stdin.txt'' ''/tmp/other'')
       = Return ''/tmp/other/sources/1604000000-stdin.txt''"
  by (simp add: save_file_as_source_def save_text_as_source_def save_source_def
      test_environment_def timestamp_def Let_def)

end
